theory Spec2Isabelle
  imports Main
begin

section \<open>JavaScript values the Tag component works with\<close>

text \<open>
  The component of \<^verbatim>\<open>components/tag/index.tsx\<close> is a React function component. Its
  inputs are props, the ambient \<^verbatim>\<open>ConfigContext\<close> and one piece of hook state; its outputs
  are a React node and the calls it makes on the click event and on \<^verbatim>\<open>setVisible\<close>.

  \<^verbatim>\<open>boolean | undefined\<close> is \<open>bool option\<close>, with \<open>None\<close> for \<^verbatim>\<open>undefined\<close>.
\<close>

type_synonym jsbool = "bool option"

definition truthy_bool :: "jsbool \<Rightarrow> bool" where
  "truthy_bool v = (v = Some True)"

text \<open>
  A React mouse event, as far as the component reads and writes it: the two flags behind
  \<^verbatim>\<open>e.stopPropagation()\<close> and \<^verbatim>\<open>e.preventDefault()\<close> / \<^verbatim>\<open>e.defaultPrevented\<close>.
\<close>

record mouse_event =
  propagationStopped :: bool
  defaultPrevented :: bool

text \<open>
  A callback supplied by the host (\<^verbatim>\<open>onClose\<close>, \<^verbatim>\<open>onClick\<close>, a custom close icon's own
  \<^verbatim>\<open>onClick\<close>) is modelled by the calls it makes on the event it receives. Neither flag
  of an event can be cleared again, which is why a callback is a list of calls and not
  an arbitrary function on events. Callbacks are taken to return normally.
\<close>

datatype event_call = PreventDefault | StopPropagation

type_synonym handler = "event_call list"

fun call_event :: "mouse_event \<Rightarrow> event_call \<Rightarrow> mouse_event" where
  "call_event e PreventDefault = e\<lparr>defaultPrevented := True\<rparr>"
| "call_event e StopPropagation = e\<lparr>propagationStopped := True\<rparr>"

definition invoke :: "handler \<Rightarrow> mouse_event \<Rightarrow> mouse_event" where
  "invoke h e = foldl call_event e h"

text \<open>The optional call \<^verbatim>\<open>f?.(e)\<close>.\<close>

definition invoke_opt :: "handler option \<Rightarrow> mouse_event \<Rightarrow> mouse_event" where
  "invoke_opt f e = (case f of None \<Rightarrow> e | Some h \<Rightarrow> invoke h e)"

section \<open>The close handler\<close>

text \<open>
  What a click handler of the component does, in order: the observable actions of
  \<^verbatim>\<open>handleCloseClick\<close> (lines 101-109) and of the wrapper around it (lines 121-124).
  \<open>CalledOnClose e\<close> and \<open>CalledOrigin e\<close> record the event as the callback received it.
\<close>

datatype action =
    CalledOrigin mouse_event
  | StoppedPropagation
  | CalledOnClose mouse_event
  | SetVisible jsbool

text \<open>
  \<^verbatim>\<open>
  const handleCloseClick = (e) => {
    e.stopPropagation();
    onClose?.(e);
    if (e.defaultPrevented) { return; }
    setVisible(false);
  };
  \<close>
  The closure captures \<^verbatim>\<open>onClose\<close> of the render that created it. The result is the
  event as the handler leaves it and the actions taken.
\<close>

definition handleCloseClick :: "handler option \<Rightarrow> mouse_event \<Rightarrow> mouse_event \<times> action list" where
  "handleCloseClick onClose e =
     (let e1 = e\<lparr>propagationStopped := True\<rparr>;
          e2 = invoke_opt onClose e1;
          called = (case onClose of None \<Rightarrow> [] | Some _ \<Rightarrow> [CalledOnClose e1])
      in if defaultPrevented e2
         then (e2, StoppedPropagation # called)
         else (e2, StoppedPropagation # called @ [SetVisible (Some False)]))"

text \<open>
  The handler given to a close icon that is itself an element (lines 121-124):
  \<^verbatim>\<open>
  onClick: (e) => { originProps?.onClick?.(e); handleCloseClick(e); }
  \<close>
\<close>

definition originThenClose ::
  "handler option \<Rightarrow> handler option \<Rightarrow> mouse_event \<Rightarrow> mouse_event \<times> action list" where
  "originThenClose origin onClose e =
     (let e0 = invoke_opt origin e;
          called = (case origin of None \<Rightarrow> [] | Some _ \<Rightarrow> [CalledOrigin e]);
          r = handleCloseClick onClose e0
      in (fst r, called @ snd r))"

text \<open>
  The click handlers that occur in a rendered tree, as data: a handler of the host, the
  closure \<^verbatim>\<open>handleCloseClick\<close> with the \<^verbatim>\<open>onClose\<close> it captured, and the wrapper.
\<close>

datatype click =
    HostClick handler
  | HandleCloseClick "handler option"
  | OriginThenClose "handler option" "handler option"

fun run_click :: "click \<Rightarrow> mouse_event \<Rightarrow> mouse_event \<times> action list" where
  "run_click (HostClick h) e = (invoke h e, [])"
| "run_click (HandleCloseClick onClose) e = handleCloseClick onClose e"
| "run_click (OriginThenClose origin onClose) e = originThenClose origin onClose e"

text \<open>The \<^verbatim>\<open>onClick\<close> of an element as a host handler (what \<^verbatim>\<open>originProps?.onClick\<close> is).\<close>

fun host_handler :: "click option \<Rightarrow> handler option" where
  "host_handler (Some (HostClick h)) = Some h"
| "host_handler _ = None"

section \<open>React nodes\<close>

text \<open>
  A style object maps a CSS property to its value; a key can be present with the value
  \<^verbatim>\<open>undefined\<close>. Object spread \<^verbatim>\<open>{...a, ...b}\<close> is \<open>a ++ b\<close>.
\<close>

type_synonym css = "string \<rightharpoonup> string option"

text \<open>
  \<^verbatim>\<open>React.ReactNode\<close>. An element keeps its type (a host tag such as \<^verbatim>\<open>a\<close> or \<^verbatim>\<open>span\<close>, or
  the name of a component, which is capitalised and never equal to a host tag), the three
  attributes the component reads or writes (\<^verbatim>\<open>className\<close>, \<^verbatim>\<open>onClick\<close>, \<^verbatim>\<open>style\<close>) and its
  children. Numbers are kept as integers: only their truthiness is read.
\<close>

datatype node =
    NUndefined
  | NNull
  | NBool bool
  | NString string
  | NNumber int
  | NArray "node list"
  | NFragment "node list"
  | NElement (etype: string) (eclassName: "string option") (eonClick: "click option")
      (estyle: "css option") (echildren: "node list")

text \<open>JavaScript truthiness of a node, as \<^verbatim>\<open>&&\<close>, \<^verbatim>\<open>||\<close> and \<^verbatim>\<open>?:\<close> read it.\<close>

fun truthy :: "node \<Rightarrow> bool" where
  "truthy NUndefined = False"
| "truthy NNull = False"
| "truthy (NBool b) = b"
| "truthy (NString s) = (s \<noteq> [])"
| "truthy (NNumber n) = (n \<noteq> 0)"
| "truthy (NArray _) = True"
| "truthy (NFragment _) = True"
| "truthy (NElement _ _ _ _ _) = True"

text \<open>\<^verbatim>\<open>x.type === 'a'\<close>: only an element has a \<^verbatim>\<open>type\<close>.\<close>

fun type_is :: "node \<Rightarrow> string \<Rightarrow> bool" where
  "type_is (NElement t _ _ _ _) s = (t = s)"
| "type_is _ _ = False"

text \<open>Truthiness of an optional string (\<^verbatim>\<open>color\<close>) and its text in a template literal.\<close>

definition truthy_str :: "string option \<Rightarrow> bool" where
  "truthy_str c = (case c of None \<Rightarrow> False | Some s \<Rightarrow> s \<noteq> [])"

definition template :: "string option \<Rightarrow> string" where
  "template c = (case c of None \<Rightarrow> ''undefined'' | Some s \<Rightarrow> s)"

section \<open>The classnames library\<close>

text \<open>
  \<^verbatim>\<open>classNames(...args)\<close> of the npm package \<^verbatim>\<open>classnames\<close>: a falsy argument is skipped,
  a string is taken as it is, an object gives its keys with truthy values in key order,
  and the parts are joined with single spaces. \<open>class_list\<close> is the list before joining.
\<close>

datatype class_arg = CStr "string option" | CObj "(string \<times> bool) list"

fun class_parts :: "class_arg \<Rightarrow> string list" where
  "class_parts (CStr None) = []"
| "class_parts (CStr (Some s)) = (if s = [] then [] else [s])"
| "class_parts (CObj kvs) = filter (\<lambda>k. k \<noteq> []) (map fst (filter snd kvs))"

definition class_list :: "class_arg list \<Rightarrow> string list" where
  "class_list args = concat (map class_parts args)"

fun join_classes :: "string list \<Rightarrow> string" where
  "join_classes [] = []"
| "join_classes [c] = c"
| "join_classes (c # d # ds) = c @ '' '' @ join_classes (d # ds)"

definition classNames :: "class_arg list \<Rightarrow> string" where
  "classNames args = join_classes (class_list args)"

text \<open>
  The classes of a \<^verbatim>\<open>className\<close> attribute as the page reads it (\<^verbatim>\<open>classList\<close>): the pieces
  between ASCII whitespace, in order.
\<close>

definition ascii_space :: "char \<Rightarrow> bool" where
  "ascii_space c = (c \<in> {CHR '' '', CHR 0x09, CHR 0x0A, CHR 0x0C, CHR 0x0D})"

fun token_step :: "char \<Rightarrow> string \<times> string list \<Rightarrow> string \<times> string list" where
  "token_step c (w, ws) =
     (if ascii_space c then ([], if w = [] then ws else w # ws) else (c # w, ws))"

definition class_tokens :: "string \<Rightarrow> string list" where
  "class_tokens s =
     (case foldr token_step s ([], []) of (w, ws) \<Rightarrow> if w = [] then ws else w # ws)"

definition spaceless :: "string \<Rightarrow> bool" where
  "spaceless s = list_all (\<lambda>c. \<not> ascii_space c) s"

text \<open>
  An object literal with computed keys, \<^verbatim>\<open>{[k1]: v1, [k2]: v2, ...}\<close>: a key written twice
  keeps its first position and its last value.
\<close>

fun obj_put :: "string \<Rightarrow> 'v \<Rightarrow> (string \<times> 'v) list \<Rightarrow> (string \<times> 'v) list" where
  "obj_put k v [] = [(k, v)]"
| "obj_put k v ((k', v') # kvs) =
     (if k = k' then (k', v) # kvs else (k', v') # obj_put k v kvs)"

definition obj_literal :: "(string \<times> 'v) list \<Rightarrow> (string \<times> 'v) list" where
  "obj_literal kvs = foldl (\<lambda>obj (k, v). obj_put k v obj) [] kvs"

section \<open>Props, context and collaborators\<close>

text \<open>
  \<^verbatim>\<open>closable?: boolean | ({ closeIcon?: React.ReactNode } & React.AriaAttributes)\<close>; the
  ARIA attributes are not kept.
\<close>

datatype closable_t = ClosableBool bool | ClosableConfig node

text \<open>
  \<^verbatim>\<open>TagProps\<close>. The fields down to \<open>bordered\<close> are the ones the component destructures;
  \<open>visible\<close> and \<open>onClick\<close> stay in the rest object \<^verbatim>\<open>props\<close>. For \<open>visible\<close> the outer
  option is the presence of the key (\<^verbatim>\<open>'visible' in props\<close>) and the inner one its value.
  A missing node prop is \<open>NUndefined\<close>.
\<close>

record tag_props =
  customizePrefixCls :: "string option"
  className :: "string option"
  rootClassName :: "string option"
  style :: "css option"
  children :: node
  icon :: node
  color :: "string option"
  onClose :: "handler option"
  closeIcon :: node
  closable :: "closable_t option"
  bordered :: "bool option"
  visible :: "jsbool option"
  onClick :: "handler option"

text \<open>The value of \<^verbatim>\<open>props.visible\<close>: \<^verbatim>\<open>undefined\<close> when the key is absent.\<close>

definition props_visible :: "tag_props \<Rightarrow> jsbool" where
  "props_visible p = (case visible p of None \<Rightarrow> None | Some v \<Rightarrow> v)"

text \<open>
  What the component reads of \<^verbatim>\<open>ConfigContext\<close>: \<^verbatim>\<open>getPrefixCls\<close>, \<^verbatim>\<open>direction\<close> and the
  global tag configuration \<^verbatim>\<open>tag\<close>.
\<close>

record tag_config =
  tag_className :: "string option"
  tag_style :: "css option"
  tag_closable :: "closable_t option"
  tag_closeIcon :: node

record config_context =
  getPrefixCls :: "string \<Rightarrow> string option \<Rightarrow> string"
  direction :: "string option"
  tag :: "tag_config option"

text \<open>
  The helpers the component imports from files that are not part of the sources at hand
  are parameters of the model: the two colour classifiers of \<^verbatim>\<open>_util/colors\<close>, the style
  hook \<^verbatim>\<open>useStyle\<close> (which returns \<^verbatim>\<open>[wrapCSSVar, hashId, cssVarCls]\<close>),
  \<^verbatim>\<open>replaceElement\<close> of \<^verbatim>\<open>_util/reactNode\<close>, which receives the icon, the replacement and
  the function from the icon's own \<^verbatim>\<open>className\<close> and \<^verbatim>\<open>onClick\<close> to the new ones, and
  \<open>closeIconOf\<close>, the node that \<^verbatim>\<open>useClosable\<close> returns for a close control that is enabled,
  from the tag's \<^emph>\<open>closable\<close> and close icon, \<^verbatim>\<open>customCloseIconRender\<close> and the context.
\<close>

record collaborators =
  isPresetColor :: "string option \<Rightarrow> bool"
  isPresetStatusColor :: "string option \<Rightarrow> bool"
  useStyle :: "string \<Rightarrow> (node \<Rightarrow> node) \<times> string \<times> string"
  replaceElement ::
    "node \<Rightarrow> node \<Rightarrow> (string option \<times> click option \<Rightarrow> string option \<times> click option) \<Rightarrow> node"
  closeIconOf ::
    "closable_t option \<Rightarrow> node \<Rightarrow> (node \<Rightarrow> node) \<Rightarrow> (closable_t option \<times> node) option \<Rightarrow> node"

section \<open>Hook state and the React runtime\<close>

text \<open>
  One mounted tag: the state of \<^verbatim>\<open>React.useState(true)\<close>, the dependency array
  \<^verbatim>\<open>[props.visible]\<close> of the last run of the effect (none before the first commit) and
  the props of the last render, whose closures are the handlers attached to the page.
\<close>

record tag_instance =
  state_visible :: jsbool
  effect_deps :: "jsbool option"
  rendered :: "tag_props option"

definition initial_instance :: tag_instance where
  "initial_instance = \<lparr>state_visible = Some True, effect_deps = None, rendered = None\<rparr>"

text \<open>
  The body of the effect (lines 66-68):
  \<^verbatim>\<open>if ('visible' in props) { setVisible(props.visible!); }\<close>
\<close>

definition visible_effect :: "tag_props \<Rightarrow> tag_instance \<Rightarrow> tag_instance" where
  "visible_effect p s = (case visible p of None \<Rightarrow> s | Some v \<Rightarrow> s\<lparr>state_visible := v\<rparr>)"

text \<open>
  A render by the host with props \<open>p\<close>, up to the point where the tag has settled: React
  renders, commits and runs the effect when this is the first commit or \<^verbatim>\<open>props.visible\<close>
  is not the value of the last run (\<^verbatim>\<open>Object.is\<close>). The render that a \<^verbatim>\<open>setVisible\<close> in the
  effect schedules has the same props, so the effect does not run again.
\<close>

definition host_render :: "tag_props \<Rightarrow> tag_instance \<Rightarrow> tag_instance" where
  "host_render p s =
     (let d = props_visible p;
          s1 = (if effect_deps s = Some d then s else visible_effect p s)
      in s1\<lparr>effect_deps := Some d, rendered := Some p\<rparr>)"

fun apply_action :: "tag_instance \<Rightarrow> action \<Rightarrow> tag_instance" where
  "apply_action s (SetVisible v) = s\<lparr>state_visible := v\<rparr>"
| "apply_action s _ = s"

text \<open>
  A click that reaches \<^verbatim>\<open>handleCloseClick\<close> of the last render with the event \<open>e\<close>. The
  render that \<^verbatim>\<open>setVisible(false)\<close> schedules has the same props and runs no effect.
\<close>

definition close_click :: "mouse_event \<Rightarrow> tag_instance \<Rightarrow> tag_instance" where
  "close_click e s =
     (case rendered s of
        None \<Rightarrow> s
      | Some p \<Rightarrow> foldl apply_action s (snd (handleCloseClick (onClose p) e)))"

text \<open>
  A click on a close icon that is an element with an \<^verbatim>\<open>onClick\<close> of its own (\<open>origin\<close>): the
  wrapper of lines 121-124 runs with the closures of the last render.
\<close>

definition icon_click :: "handler option \<Rightarrow> mouse_event \<Rightarrow> tag_instance \<Rightarrow> tag_instance" where
  "icon_click origin e s =
     (case rendered s of
        None \<Rightarrow> s
      | Some p \<Rightarrow> foldl apply_action s (snd (originThenClose origin (onClose p) e)))"

datatype tag_event = HostRender tag_props | CloseClick mouse_event

fun step :: "tag_instance \<Rightarrow> tag_event \<Rightarrow> tag_instance" where
  "step s (HostRender p) = host_render p s"
| "step s (CloseClick e) = close_click e s"

definition run :: "tag_event list \<Rightarrow> tag_instance" where
  "run evs = foldl step initial_instance evs"

text \<open>The events in which the host supplies the \<^verbatim>\<open>visible\<close> prop at every render.\<close>

fun controlled :: "tag_event \<Rightarrow> bool" where
  "controlled (HostRender p) = (visible p \<noteq> None)"
| "controlled (CloseClick e) = True"

section \<open>The render function\<close>

definition prefixCls :: "config_context \<Rightarrow> tag_props \<Rightarrow> string" where
  "prefixCls ctx p = getPrefixCls ctx ''tag'' (customizePrefixCls p)"

definition isPreset :: "collaborators \<Rightarrow> tag_props \<Rightarrow> bool" where
  "isPreset ext p = isPresetColor ext (color p)"

definition isStatus :: "collaborators \<Rightarrow> tag_props \<Rightarrow> bool" where
  "isStatus ext p = isPresetStatusColor ext (color p)"

definition isInternalColor :: "collaborators \<Rightarrow> tag_props \<Rightarrow> bool" where
  "isInternalColor ext p = (isPreset ext p \<or> isStatus ext p)"

definition spread :: "css option \<Rightarrow> css" where
  "spread s = (case s of None \<Rightarrow> Map.empty | Some m \<Rightarrow> m)"

definition context_style :: "config_context \<Rightarrow> css option" where
  "context_style ctx = (case tag ctx of None \<Rightarrow> None | Some t \<Rightarrow> tag_style t)"

definition context_className :: "config_context \<Rightarrow> string option" where
  "context_className ctx = (case tag ctx of None \<Rightarrow> None | Some t \<Rightarrow> tag_className t)"

text \<open>
  The entry that the colour contributes to the style (line 76):
  \<^verbatim>\<open>backgroundColor: color && !isInternalColor ? color : undefined\<close>
\<close>

definition colorBackground :: "collaborators \<Rightarrow> tag_props \<Rightarrow> string option" where
  "colorBackground ext p =
     (if truthy_str (color p) \<and> \<not> isInternalColor ext p then color p else None)"

text \<open>
  \<^verbatim>\<open>
  const tagStyle = { backgroundColor: ..., ...tag?.style, ...style };
  \<close>
\<close>

definition tagStyle :: "collaborators \<Rightarrow> config_context \<Rightarrow> tag_props \<Rightarrow> css" where
  "tagStyle ext ctx p =
     [''backgroundColor'' \<mapsto> colorBackground ext p] ++ spread (context_style ctx) ++ spread (style p)"

text \<open>The object argument of \<^verbatim>\<open>classNames\<close> (lines 88-94), \<open>vis\<close> being the hook state.\<close>

definition switches ::
  "collaborators \<Rightarrow> config_context \<Rightarrow> tag_props \<Rightarrow> jsbool \<Rightarrow> (string \<times> bool) list" where
  "switches ext ctx p vis =
     obj_literal
       [(prefixCls ctx p @ ''-'' @ template (color p), isInternalColor ext p),
        (prefixCls ctx p @ ''-has-color'', truthy_str (color p) \<and> \<not> isInternalColor ext p),
        (prefixCls ctx p @ ''-hidden'', \<not> truthy_bool vis),
        (prefixCls ctx p @ ''-rtl'', direction ctx = Some ''rtl''),
        (prefixCls ctx p @ ''-borderless'',
           \<not> (case bordered p of None \<Rightarrow> True | Some b \<Rightarrow> b))]"

definition tagClassArgs ::
  "collaborators \<Rightarrow> config_context \<Rightarrow> tag_props \<Rightarrow> jsbool \<Rightarrow> class_arg list" where
  "tagClassArgs ext ctx p vis =
     (let (wrapCSSVar, hashId, cssVarCls) = useStyle ext (prefixCls ctx p)
      in [CStr (Some (prefixCls ctx p)),
          CStr (context_className ctx),
          CObj (switches ext ctx p vis),
          CStr (className p),
          CStr (rootClassName p),
          CStr (Some hashId),
          CStr (Some cssVarCls)])"

definition tagClassList ::
  "collaborators \<Rightarrow> config_context \<Rightarrow> tag_props \<Rightarrow> jsbool \<Rightarrow> string list" where
  "tagClassList ext ctx p vis = class_list (tagClassArgs ext ctx p vis)"

definition tagClassName ::
  "collaborators \<Rightarrow> config_context \<Rightarrow> tag_props \<Rightarrow> jsbool \<Rightarrow> string" where
  "tagClassName ext ctx p vis = classNames (tagClassArgs ext ctx p vis)"

text \<open>
  \<^verbatim>\<open>customCloseIconRender\<close> (lines 114-127): the icon wrapped in a span that closes on
  click, handed to \<^verbatim>\<open>replaceElement\<close> together with the props for an icon that is an
  element itself.
\<close>

definition customCloseIconRender :: "collaborators \<Rightarrow> config_context \<Rightarrow> tag_props \<Rightarrow> node \<Rightarrow> node" where
  "customCloseIconRender ext ctx p iconNode =
     (let replacement =
            NElement ''span'' (Some (prefixCls ctx p @ ''-close-icon''))
              (Some (HandleCloseClick (onClose p))) None [iconNode]
      in replaceElement ext iconNode replacement
           (\<lambda>(originClassName, originOnClick).
              (Some (classNames [CStr originClassName, CStr (Some (prefixCls ctx p @ ''-close-icon''))]),
               Some (OriginThenClose (host_handler originOnClick) (onClose p)))))"

text \<open>
  Modelled from the spec: \<^verbatim>\<open>pickClosable\<close> of \<^verbatim>\<open>_util/hooks/useClosable\<close> is not among the
  sources at hand. It hands on the \<^emph>\<open>closable\<close> and the close icon of the global tag
  configuration, the "global tag defaults" of the spec.
\<close>

definition pickClosable :: "tag_config option \<Rightarrow> (closable_t option \<times> node) option" where
  "pickClosable cfg =
     (case cfg of None \<Rightarrow> None | Some t \<Rightarrow> Some (tag_closable t, tag_closeIcon t))"

text \<open>
  Modelled from the spec: what the tag's \<^emph>\<open>closable\<close> ("boolean or object with icon/ARIA
  attributes") and its "close-icon override" say about the close control, if anything
  (part of \<^verbatim>\<open>useClosable\<close>, which is missing): \<^emph>\<open>closable\<close> decides when it is given; without
  it a close-icon override asks for the control, unless it is \<^verbatim>\<open>null\<close> or \<^verbatim>\<open>false\<close>.
\<close>

fun closable_setting :: "closable_t option \<Rightarrow> node \<Rightarrow> bool option" where
  "closable_setting (Some (ClosableBool b)) _ = Some b"
| "closable_setting (Some (ClosableConfig _)) _ = Some True"
| "closable_setting None NUndefined = None"
| "closable_setting None NNull = Some False"
| "closable_setting None (NBool False) = Some False"
| "closable_setting None _ = Some True"

text \<open>
  Modelled from the spec: \<^verbatim>\<open>useClosable\<close> of \<^verbatim>\<open>_util/hooks/useClosable\<close> is not among the
  sources at hand. The spec says: "Close affordance: if enabled, renders a close control",
  "Omitting closable renders no close control", and omitted configuration is "handled via
  defaulting". In the model the tag's own setting enables or disables the control, and
  \<^verbatim>\<open>defaultClosable\<close> decides when the tag has none. What the hook returns for an enabled
  control (which icon it takes and how it passes it to \<^verbatim>\<open>customCloseIconRender\<close>) is not in
  the spec: it is the parameter \<open>enabledIcon\<close>. The result is
  \<^verbatim>\<open>[mergedClosable, mergedCloseIcon]\<close>.
\<close>

definition useClosable ::
  "(closable_t option \<Rightarrow> node \<Rightarrow> (node \<Rightarrow> node) \<Rightarrow> (closable_t option \<times> node) option \<Rightarrow> node)
     \<Rightarrow> closable_t option \<Rightarrow> node \<Rightarrow> (node \<Rightarrow> node) \<Rightarrow> bool
     \<Rightarrow> (closable_t option \<times> node) option \<Rightarrow> bool \<times> node" where
  "useClosable enabledIcon own ownIcon render defaultClosable context =
     (let mergedClosable =
            (case closable_setting own ownIcon of Some b \<Rightarrow> b | None \<Rightarrow> defaultClosable)
      in if mergedClosable then (True, enabledIcon own ownIcon render context)
         else (False, NNull))"

text \<open>
  The call of lines 111-130:
  \<^verbatim>\<open>
  const [, mergedCloseIcon] = useClosable({ closable, closeIcon, customCloseIconRender,
    defaultClosable: false, context: pickClosable(tag) });
  \<close>
\<close>

definition mergedCloseIcon :: "collaborators \<Rightarrow> config_context \<Rightarrow> tag_props \<Rightarrow> node" where
  "mergedCloseIcon ext ctx p =
     snd (useClosable (closeIconOf ext) (closable p) (closeIcon p)
            (customCloseIconRender ext ctx p) False (pickClosable (tag ctx)))"

text \<open>
  \<^verbatim>\<open>
  const isNeedWave = typeof props.onClick === 'function' ||
    (children && children.type === 'a');
  \<close>
  read for its truthiness, as the conditional of line 156 does.
\<close>

definition isNeedWave :: "tag_props \<Rightarrow> bool" where
  "isNeedWave p = (onClick p \<noteq> None \<or> (truthy (children p) \<and> type_is (children p) ''a''))"

text \<open>
  \<^verbatim>\<open>
  const iconNode = icon || null;
  const kids = iconNode ? (<>{iconNode}{children && <span>{children}</span>}</>) : children;
  \<close>
\<close>

definition iconNode :: "tag_props \<Rightarrow> node" where
  "iconNode p = (if truthy (icon p) then icon p else NNull)"

definition kids :: "tag_props \<Rightarrow> node" where
  "kids p =
     (if truthy (iconNode p)
      then NFragment
             [iconNode p,
              if truthy (children p) then NElement ''span'' None None None [children p]
              else children p]
      else children p)"

text \<open>The span of lines 147-154; \<^verbatim>\<open>{...props}\<close> brings the host's \<^verbatim>\<open>onClick\<close>.\<close>

definition tagNode :: "collaborators \<Rightarrow> config_context \<Rightarrow> tag_props \<Rightarrow> jsbool \<Rightarrow> node" where
  "tagNode ext ctx p vis =
     NElement ''span'' (Some (tagClassName ext ctx p vis)) (map_option HostClick (onClick p))
       (Some (tagStyle ext ctx p))
       [kids p,
        mergedCloseIcon ext ctx p,
        if isPreset ext p then NElement ''PresetCmp'' None None None [] else NBool False,
        if isStatus ext p then NElement ''StatusCmp'' None None None [] else NBool False]"

text \<open>
  Modelled from the spec: \<^verbatim>\<open>devUseWarning\<close> of \<^verbatim>\<open>_util/warning\<close> is not among the sources
  at hand. The spec calls its output a developer-facing warning for the use of the
  deprecated prop, advisory only. \<^verbatim>\<open>warning.deprecated(valid, oldProp, newProp)\<close> is
  modelled as the message it adds to the console when \<open>valid\<close> is false.
\<close>

datatype warning = Deprecated string string string

definition deprecated :: "string \<Rightarrow> bool \<Rightarrow> string \<Rightarrow> string \<Rightarrow> warning list" where
  "deprecated component valid oldProp newProp =
     (if valid then [] else [Deprecated component oldProp newProp])"

text \<open>
  \<^verbatim>\<open>InternalTag\<close>: the node it returns and the warnings it emits, for a value \<open>env\<close> of
  \<^verbatim>\<open>process.env.NODE_ENV\<close> and the hook state \<open>vis\<close>.
  \<^verbatim>\<open>
  if (process.env.NODE_ENV !== 'production') {
    const warning = devUseWarning('Tag');
    warning.deprecated(!('visible' in props), 'visible', 'visible && <Tag />');
  }
  ...
  return wrapCSSVar(isNeedWave ? <Wave component="Tag">{tagNode}</Wave> : tagNode);
  \<close>
\<close>

definition InternalTag ::
  "string \<Rightarrow> collaborators \<Rightarrow> config_context \<Rightarrow> tag_props \<Rightarrow> jsbool \<Rightarrow> node \<times> warning list" where
  "InternalTag env ext ctx p vis =
     (let warnings =
            (if env \<noteq> ''production''
             then deprecated ''Tag'' (visible p = None) ''visible'' ''visible && <Tag />''
             else []);
          (wrapCSSVar, hashId, cssVarCls) = useStyle ext (prefixCls ctx p)
      in (wrapCSSVar
            (if isNeedWave p then NElement ''Wave'' None None None [tagNode ext ctx p vis]
             else tagNode ext ctx p vis),
          warnings))"

section \<open>Instances used in the examples\<close>

text \<open>A click as the browser dispatches it: neither flag is set yet.\<close>

definition fresh_click :: mouse_event where
  "fresh_click = \<lparr>propagationStopped = False, defaultPrevented = False\<rparr>"

text \<open>\<^verbatim>\<open><Tag>label</Tag>\<close>: every optional prop left out.\<close>

definition example_props :: tag_props where
  "example_props =
     \<lparr>customizePrefixCls = None, className = None, rootClassName = None, style = None,
      children = NString ''label'', icon = NUndefined, color = None, onClose = None,
      closeIcon = NUndefined, closable = None, bordered = None, visible = None,
      onClick = None\<rparr>"

text \<open>
  A \<^verbatim>\<open>replaceElement\<close> for the examples: an element is cloned with the new props, any
  other node gives way to the replacement.
\<close>

definition cloneOrReplace ::
  "node \<Rightarrow> node \<Rightarrow> (string option \<times> click option \<Rightarrow> string option \<times> click option) \<Rightarrow> node" where
  "cloneOrReplace element replacement props =
     (case element of
        NElement t c k s ch \<Rightarrow> (case props (c, k) of (c', k') \<Rightarrow> NElement t c' k' s ch)
      | _ \<Rightarrow> replacement)"

text \<open>
  Collaborators for the examples: two palette colours, two status colours, a style hook
  that wraps nothing, and a close control made of the tag's close icon, or of a stock
  icon when the tag has none.
\<close>

definition example_collaborators :: collaborators where
  "example_collaborators =
     \<lparr>isPresetColor = (\<lambda>c. c \<in> {Some ''blue'', Some ''red''}),
      isPresetStatusColor = (\<lambda>c. c \<in> {Some ''success'', Some ''error''}),
      useStyle = (\<lambda>prefix. (\<lambda>n. n, ''css-hash'', ''css-var'')),
      replaceElement = cloneOrReplace,
      closeIconOf = (\<lambda>own ownIcon render context.
        render (case ownIcon of
                  NUndefined \<Rightarrow> NElement ''CloseOutlined'' None None None []
                | _ \<Rightarrow> ownIcon))\<rparr>"

text \<open>A context without global tag configuration; the prefix is \<^verbatim>\<open>ant-tag\<close>.\<close>

definition example_context :: config_context where
  "example_context =
     \<lparr>getPrefixCls = (\<lambda>suffix custom. if truthy_str custom then the custom else ''ant-'' @ suffix),
      direction = None,
      tag = None\<rparr>"

text \<open>
  The suffixes of the four fixed keys of the class object (lines 90-93). A colour with
  one of these names would share its key \<^verbatim>\<open>`${prefixCls}-${color}`\<close> with that switch.
\<close>

definition switch_names :: "string list" where
  "switch_names = [''has-color'', ''hidden'', ''rtl'', ''borderless'']"

text \<open>\<^verbatim>\<open><Tag closable>label</Tag>\<close>: a tag with a close control.\<close>

definition closable_props :: tag_props where
  "closable_props = example_props\<lparr>closable := Some (ClosableBool True)\<rparr>"

text \<open>
  \<^verbatim>\<open><Tag closable closeIcon={<CloseIcon onClick={(e) => e.preventDefault()} />}>\<close>: a
  close icon whose own handler prevents the default of the click.
\<close>

definition vetoing_props :: tag_props where
  "vetoing_props =
     closable_props\<lparr>closeIcon :=
        NElement ''CloseIcon'' None (Some (HostClick [PreventDefault])) None []\<rparr>"

section \<open>What controlled visibility keeps\<close>

text \<open>
  The state of a tag whose every render had the \<^verbatim>\<open>visible\<close> prop: before the first render
  the flag is true; afterwards the effect has run for the value of the last render, and
  the flag is that value or false.
\<close>

definition mirrors_or_hidden :: "tag_instance \<Rightarrow> bool" where
  "mirrors_or_hidden s =
     (case rendered s of
        None \<Rightarrow> state_visible s = Some True \<and> effect_deps s = None
      | Some p \<Rightarrow>
          visible p \<noteq> None \<and> effect_deps s = Some (props_visible p) \<and>
          (state_visible s = props_visible p \<or> state_visible s = Some False))"

section \<open>Callbacks and the event flags\<close>

lemma invoke_keeps_prevented: "defaultPrevented e \<Longrightarrow> defaultPrevented (invoke h e)"
  unfolding invoke_def
proof (induction h arbitrary: e)
  case Nil
  then show ?case by simp
next
  case (Cons c h)
  then show ?case by (cases c) simp_all
qed

lemma invoke_keeps_stopped: "propagationStopped e \<Longrightarrow> propagationStopped (invoke h e)"
  unfolding invoke_def
proof (induction h arbitrary: e)
  case Nil
  then show ?case by simp
next
  case (Cons c h)
  then show ?case by (cases c) simp_all
qed

lemma invoke_prevents: "PreventDefault \<in> set h \<Longrightarrow> defaultPrevented (invoke h e)"
proof (induction h arbitrary: e)
  case Nil
  then show ?case by simp
next
  case (Cons c h)
  show ?case
  proof (cases "c = PreventDefault")
    case True
    have "defaultPrevented (invoke h (call_event e c))"
      using True by (intro invoke_keeps_prevented) simp
    then show ?thesis by (simp add: invoke_def)
  next
    case False
    with Cons.prems have "PreventDefault \<in> set h" by simp
    from Cons.IH[OF this] show ?thesis by (simp add: invoke_def)
  qed
qed

lemma invoke_opt_keeps_stopped: "propagationStopped e \<Longrightarrow> propagationStopped (invoke_opt f e)"
  by (cases f) (simp_all add: invoke_opt_def invoke_keeps_stopped)

lemma handleCloseClick_stopped: "propagationStopped (fst (handleCloseClick oc e))"
  by (simp add: handleCloseClick_def Let_def invoke_opt_keeps_stopped)

lemma handleCloseClick_trace:
  "snd (handleCloseClick oc e) =
     StoppedPropagation #
     (case oc of None \<Rightarrow> [] | Some _ \<Rightarrow> [CalledOnClose (e\<lparr>propagationStopped := True\<rparr>)]) @
     (if defaultPrevented (invoke_opt oc (e\<lparr>propagationStopped := True\<rparr>)) then []
      else [SetVisible (Some False)])"
  by (simp add: handleCloseClick_def Let_def)

lemma close_click_state:
  "rendered s = Some p \<Longrightarrow>
   state_visible (close_click e s) =
     (if defaultPrevented (invoke_opt (onClose p) (e\<lparr>propagationStopped := True\<rparr>))
      then state_visible s else Some False)"
  by (simp add: close_click_def handleCloseClick_trace split: option.splits)

lemma close_click_frame:
  "effect_deps (close_click e s) = effect_deps s \<and> rendered (close_click e s) = rendered s"
  by (simp add: close_click_def handleCloseClick_trace split: option.splits)

lemma close_click_prevented_id:
  "rendered s = Some p \<Longrightarrow>
   defaultPrevented (invoke_opt (onClose p) (e\<lparr>propagationStopped := True\<rparr>)) \<Longrightarrow>
   close_click e s = s"
  by (simp add: close_click_def handleCloseClick_trace split: option.splits)

section \<open>The class object\<close>

lemma obj_put_map_of: "map_of (obj_put k v kvs) = (map_of kvs)(k \<mapsto> v)"
  by (induction kvs) (auto simp: fun_eq_iff)

lemma obj_put_keys: "fst ` set (obj_put k v kvs) = insert k (fst ` set kvs)"
proof (induction kvs)
  case Nil
  then show ?case by simp
next
  case (Cons kv kvs)
  obtain k' v' where kv: "kv = (k', v')" by (cases kv)
  show ?case
  proof (cases "k = k'")
    case True
    then show ?thesis by (simp add: kv)
  next
    case False
    then show ?thesis using Cons.IH by (simp add: kv insert_commute)
  qed
qed

lemma obj_put_distinct: "distinct (map fst kvs) \<Longrightarrow> distinct (map fst (obj_put k v kvs))"
  by (induction kvs) (auto simp: obj_put_keys)

lemma foldl_obj_put:
  "distinct (map fst acc) \<Longrightarrow>
   distinct (map fst (foldl (\<lambda>obj (k, v). obj_put k v obj) acc kvs)) \<and>
   map_of (foldl (\<lambda>obj (k, v). obj_put k v obj) acc kvs) = map_of acc ++ map_of (rev kvs)"
proof (induction kvs arbitrary: acc)
  case Nil
  then show ?case by simp
next
  case (Cons kv kvs)
  obtain k v where kv: "kv = (k, v)" by (cases kv)
  have d: "distinct (map fst (obj_put k v acc))"
    using Cons.prems by (rule obj_put_distinct)
  have "map_of (obj_put k v acc) ++ map_of (rev kvs) = map_of acc ++ map_of (rev kvs @ [(k, v)])"
    by (simp add: obj_put_map_of fun_eq_iff map_add_def split: option.splits)
  with Cons.IH[OF d] show ?case by (simp add: kv)
qed

lemma obj_literal_distinct: "distinct (map fst (obj_literal kvs))"
  using foldl_obj_put[of "[]" kvs] by (simp add: obj_literal_def)

lemma obj_literal_map_of: "map_of (obj_literal kvs) = map_of (rev kvs)"
  using foldl_obj_put[of "[]" kvs] by (simp add: obj_literal_def)

lemma truthy_keys:
  "distinct (map fst kvs) \<Longrightarrow> (k \<in> set (map fst (filter snd kvs))) = (map_of kvs k = Some True)"
  by (induction kvs) (auto simp: image_iff)

text \<open>A key is among the classes of an object literal iff its last value is truthy.\<close>

lemma obj_literal_class:
  "(k \<in> set (class_parts (CObj (obj_literal kvs)))) = (k \<noteq> [] \<and> map_of (rev kvs) k = Some True)"
  using truthy_keys[OF obj_literal_distinct, of k kvs]
  by (auto simp: obj_literal_map_of)

lemma switch_class_iff:
  "(k \<in> set (class_parts (CObj (switches ext ctx p vis)))) =
     (k \<noteq> [] \<and>
      map_of
        [(prefixCls ctx p @ ''-borderless'', \<not> (case bordered p of None \<Rightarrow> True | Some b \<Rightarrow> b)),
         (prefixCls ctx p @ ''-rtl'', direction ctx = Some ''rtl''),
         (prefixCls ctx p @ ''-hidden'', \<not> truthy_bool vis),
         (prefixCls ctx p @ ''-has-color'', truthy_str (color p) \<and> \<not> isInternalColor ext p),
         (prefixCls ctx p @ ''-'' @ template (color p), isInternalColor ext p)] k = Some True)"
  unfolding switches_def obj_literal_class by simp

lemma tagClassList_parts:
  "tagClassList ext ctx p vis =
     class_parts (CStr (Some (prefixCls ctx p))) @
     class_parts (CStr (context_className ctx)) @
     class_parts (CObj (switches ext ctx p vis)) @
     class_parts (CStr (className p)) @
     class_parts (CStr (rootClassName p)) @
     class_parts (CStr (Some (fst (snd (useStyle ext (prefixCls ctx p)))))) @
     class_parts (CStr (Some (snd (snd (useStyle ext (prefixCls ctx p))))))"
  by (simp add: tagClassList_def tagClassArgs_def class_list_def case_prod_beta del: class_parts.simps)

lemma switches_in_tagClassList:
  "k \<in> set (class_parts (CObj (switches ext ctx p vis))) \<Longrightarrow> k \<in> set (tagClassList ext ctx p vis)"
  unfolding tagClassList_parts by simp

lemma hidden_class_iff:
  "(prefixCls ctx p @ ''-hidden'' \<in> set (class_parts (CObj (switches ext ctx p vis)))) =
     (\<not> truthy_bool vis)"
  unfolding switch_class_iff by simp

lemma has_color_class_iff:
  "(prefixCls ctx p @ ''-has-color'' \<in> set (class_parts (CObj (switches ext ctx p vis)))) =
     (truthy_str (color p) \<and> \<not> isInternalColor ext p)"
  unfolding switch_class_iff by simp

lemma preset_class:
  "isInternalColor ext p \<Longrightarrow> template (color p) \<notin> set switch_names \<Longrightarrow>
   prefixCls ctx p @ ''-'' @ template (color p) \<in> set (class_parts (CObj (switches ext ctx p vis)))"
  unfolding switch_class_iff by (simp add: switch_names_def)

lemma no_preset_class:
  assumes "\<not> isInternalColor ext p"
    and "k \<in> set (class_parts (CObj (switches ext ctx p vis)))"
  shows "k \<in> (\<lambda>n. prefixCls ctx p @ ''-'' @ n) ` set switch_names"
proof -
  from assms(2) have
    "map_of
        [(prefixCls ctx p @ ''-borderless'', \<not> (case bordered p of None \<Rightarrow> True | Some b \<Rightarrow> b)),
         (prefixCls ctx p @ ''-rtl'', direction ctx = Some ''rtl''),
         (prefixCls ctx p @ ''-hidden'', \<not> truthy_bool vis),
         (prefixCls ctx p @ ''-has-color'', truthy_str (color p) \<and> \<not> isInternalColor ext p),
         (prefixCls ctx p @ ''-'' @ template (color p), isInternalColor ext p)] k = Some True"
    unfolding switch_class_iff by simp
  with assms(1) show ?thesis
    by (simp add: switch_names_def split: if_splits)
qed

lemma prefix_default:
  "customizePrefixCls p = None \<Longrightarrow> prefixCls example_context p = ''ant-tag''"
  by (simp add: prefixCls_def example_context_def truthy_str_def)

lemma example_prefix: "prefixCls example_context example_props = ''ant-tag''"
  by (simp add: prefix_default example_props_def)

section \<open>The rendered span\<close>

text \<open>
  The span of the tag carries \<^verbatim>\<open>className={tagClassName}\<close> and \<^verbatim>\<open>style={tagStyle}\<close>. A class
  string without whitespace that \<^verbatim>\<open>classNames\<close> emits is one of the classes of the
  attribute.
\<close>

lemma token_fold_append:
  "foldr token_step a (w, ws @ zs) =
     (fst (foldr token_step a (w, ws)), snd (foldr token_step a (w, ws)) @ zs)"
proof (induction a)
  case Nil
  then show ?case by simp
next
  case (Cons c a)
  obtain f r where fr: "foldr token_step a (w, ws) = (f, r)" by (cases "foldr token_step a (w, ws)")
  with Cons show ?case by simp
qed

lemma class_tokens_space:
  assumes "ascii_space c"
  shows "class_tokens (a @ c # b) = class_tokens a @ class_tokens b"
proof -
  obtain w ws where b: "foldr token_step b ([], []) = (w, ws)"
    by (cases "foldr token_step b ([], [])")
  have tb: "class_tokens b = (if w = [] then ws else w # ws)"
    by (simp add: class_tokens_def b)
  have "foldr token_step (a @ c # b) ([], []) = foldr token_step a ([], [] @ class_tokens b)"
    using assms by (simp add: b tb)
  also have "\<dots> = (fst (foldr token_step a ([], [])),
      snd (foldr token_step a ([], [])) @ class_tokens b)"
    by (rule token_fold_append)
  finally show ?thesis
    by (simp add: class_tokens_def split: prod.splits)
qed

lemma token_fold_spaceless: "spaceless k \<Longrightarrow> foldr token_step k (w, ws) = (k @ w, ws)"
  by (induction k) (simp_all add: spaceless_def)

lemma class_tokens_spaceless: "spaceless k \<Longrightarrow> k \<noteq> [] \<Longrightarrow> class_tokens k = [k]"
  by (simp add: class_tokens_def token_fold_spaceless)

lemma class_tokens_Nil: "class_tokens [] = []"
  by (simp add: class_tokens_def)

lemma class_tokens_join:
  "set (class_tokens (join_classes xs)) = (\<Union>x\<in>set xs. set (class_tokens x))"
proof (induction xs rule: join_classes.induct)
  case 1
  show ?case by (simp add: class_tokens_Nil)
next
  case (2 c)
  show ?case by simp
next
  case (3 c d ds)
  have sp: "ascii_space CHR '' ''" by (simp add: ascii_space_def)
  have "class_tokens (join_classes (c # d # ds)) =
      class_tokens c @ class_tokens (join_classes (d # ds))"
    using class_tokens_space[OF sp, of c "join_classes (d # ds)"] by simp
  with 3 show ?case by simp
qed

lemma class_in_joined:
  assumes "k \<in> set xs" and "spaceless k" and "k \<noteq> []"
  shows "k \<in> set (class_tokens (join_classes xs))"
proof -
  have "k \<in> set (class_tokens k)"
    using assms(2,3) by (simp add: class_tokens_spaceless)
  with assms(1) show ?thesis
    unfolding class_tokens_join by blast
qed

lemma spaceless_append: "spaceless (a @ b) = (spaceless a \<and> spaceless b)"
  by (simp add: spaceless_def)

lemma spaceless_suffixes:
  "spaceless ''-hidden''" "spaceless ''-has-color''" "spaceless ''-''"
  by (simp_all add: spaceless_def ascii_space_def)

lemma spaceless_dash: "spaceless (CHR ''-'' # s) = spaceless s"
  by (simp add: spaceless_def ascii_space_def)

lemma span_className:
  "eclassName (tagNode ext ctx p vis) = Some (join_classes (tagClassList ext ctx p vis))"
  by (simp add: tagNode_def tagClassName_def tagClassList_def classNames_def)

lemma span_style: "estyle (tagNode ext ctx p vis) = Some (tagStyle ext ctx p)"
  by (simp add: tagNode_def)

lemma class_in_span:
  assumes "k \<in> set (tagClassList ext ctx p vis)" and "k \<noteq> []"
  shows "spaceless k \<longrightarrow> k \<in> set (class_tokens (the (eclassName (tagNode ext ctx p vis))))"
  using assms by (simp add: span_className class_in_joined)

lemma hidden_in_span:
  assumes "\<not> truthy_bool vis"
  shows "prefixCls ctx p @ ''-hidden'' \<in> set (tagClassList ext ctx p vis) \<and>
         (spaceless (prefixCls ctx p) \<longrightarrow>
            prefixCls ctx p @ ''-hidden'' \<in>
              set (class_tokens (the (eclassName (tagNode ext ctx p vis)))))"
proof -
  have "prefixCls ctx p @ ''-hidden'' \<in> set (class_parts (CObj (switches ext ctx p vis)))"
    using assms hidden_class_iff[of ctx p ext vis] by blast
  then have m: "prefixCls ctx p @ ''-hidden'' \<in> set (tagClassList ext ctx p vis)"
    by (rule switches_in_tagClassList)
  have "spaceless (prefixCls ctx p) \<longrightarrow>
      prefixCls ctx p @ ''-hidden'' \<in> set (class_tokens (join_classes (tagClassList ext ctx p vis)))"
    using m by (auto intro!: class_in_joined simp: spaceless_append spaceless_suffixes)
  with m show ?thesis by (simp add: span_className)
qed

lemma example_span_className:
  assumes "customizePrefixCls p = None" and "className p = None" and "rootClassName p = None"
    and "color p = None" and "bordered p = None"
  shows "eclassName (tagNode example_collaborators example_context p vis) =
     Some (if truthy_bool vis then ''ant-tag css-hash css-var''
           else ''ant-tag ant-tag-hidden css-hash css-var'')"
proof -
  have pre: "prefixCls example_context p = ''ant-tag''"
    using assms(1) by (rule prefix_default)
  have sw: "switches example_collaborators example_context p vis =
      [(''ant-tag-undefined'', False), (''ant-tag-has-color'', False),
       (''ant-tag-hidden'', \<not> truthy_bool vis), (''ant-tag-rtl'', False),
       (''ant-tag-borderless'', False)]"
  proof -
    have dir: "direction example_context = None" by (simp add: example_context_def)
    have int: "\<not> isInternalColor example_collaborators p"
      using assms(4)
      by (simp add: isInternalColor_def isPreset_def isStatus_def example_collaborators_def)
    show ?thesis
      using assms(4,5) int
      by (simp add: switches_def pre dir obj_literal_def template_def truthy_str_def)
  qed
  have "tagClassList example_collaborators example_context p vis =
      (if truthy_bool vis then [''ant-tag'', ''css-hash'', ''css-var'']
       else [''ant-tag'', ''ant-tag-hidden'', ''css-hash'', ''css-var''])"
  proof -
    have cc: "context_className example_context = None"
      by (simp add: context_className_def example_context_def)
    have us: "useStyle example_collaborators ''ant-tag'' = (\<lambda>n. n, ''css-hash'', ''css-var'')"
      by (simp add: example_collaborators_def)
    show ?thesis
      using assms(2,3) by (simp add: tagClassList_parts pre sw cc us)
  qed
  then show ?thesis by (simp add: span_className)
qed

lemma icon_click_close_click: "icon_click origin e s = close_click (invoke_opt origin e) s"
  by (cases origin) (simp_all add: icon_click_def close_click_def originThenClose_def Let_def
      split: option.splits)

section \<open>Closing\<close>

text \<open>
  Claim C3. When the \<^verbatim>\<open>onClose\<close> callback calls \<^verbatim>\<open>preventDefault\<close> on the event, the click
  leaves the tag as it was: the handler stops propagation, calls the callback and returns
  without \<^verbatim>\<open>setVisible\<close>. The check reads the event after the callback has run, and for
  every callback and event \<^verbatim>\<open>setVisible(false)\<close> is called only if the event is not
  prevented at that point.
\<close>

theorem prevented_close_keeps_visible:
  assumes "rendered s = Some p" and "onClose p = Some cb" and "PreventDefault \<in> set cb"
  shows "close_click e s = s \<and>
         snd (handleCloseClick (onClose p) e) =
           [StoppedPropagation, CalledOnClose (e\<lparr>propagationStopped := True\<rparr>)] \<and>
         (\<forall>oc e'. SetVisible (Some False) \<in> set (snd (handleCloseClick oc e')) \<longrightarrow>
                  \<not> defaultPrevented (fst (handleCloseClick oc e')))"
proof -
  have prevented: "defaultPrevented (invoke_opt (onClose p) (e\<lparr>propagationStopped := True\<rparr>))"
    using assms(2,3) by (simp add: invoke_opt_def invoke_prevents)
  have "close_click e s = s"
    using assms(1) prevented by (rule close_click_prevented_id)
  moreover have "snd (handleCloseClick (onClose p) e) =
      [StoppedPropagation, CalledOnClose (e\<lparr>propagationStopped := True\<rparr>)]"
    using prevented assms(2) by (simp add: handleCloseClick_trace)
  moreover have "\<And>oc e'. SetVisible (Some False) \<in> set (snd (handleCloseClick oc e')) \<Longrightarrow>
      \<not> defaultPrevented (fst (handleCloseClick oc e'))"
    by (auto simp: handleCloseClick_def Let_def split: option.splits if_splits)
  ultimately show ?thesis by blast
qed

theorem prevented_close_keeps_visible_witness:
  "close_click fresh_click (host_render (example_props\<lparr>onClose := Some [PreventDefault]\<rparr>) initial_instance)
     = host_render (example_props\<lparr>onClose := Some [PreventDefault]\<rparr>) initial_instance \<and>
   state_visible (close_click fresh_click
     (host_render (example_props\<lparr>onClose := Some [PreventDefault]\<rparr>) initial_instance)) = Some True"
proof -
  let ?p = "example_props\<lparr>onClose := Some [PreventDefault]\<rparr>"
  let ?s = "host_render ?p initial_instance"
  have r: "rendered ?s = Some ?p" by (simp add: host_render_def Let_def)
  have c: "onClose ?p = Some [PreventDefault]" by simp
  have m: "PreventDefault \<in> set [PreventDefault]" by simp
  have v: "state_visible ?s = Some True"
    by (simp add: host_render_def Let_def visible_effect_def initial_instance_def example_props_def)
  from prevented_close_keeps_visible[OF r c m, of fresh_click] v show ?thesis by simp
qed

text \<open>
  Claim C10. Both click handlers of the close control (\<^verbatim>\<open>handleCloseClick\<close> itself and the
  wrapper for an icon that is an element) stop the propagation of the event, whatever
  \<^verbatim>\<open>onClose\<close> is and does: the flag is set when the handler returns, \<^verbatim>\<open>stopPropagation\<close>
  comes before any call of \<^verbatim>\<open>onClose\<close>, and \<^verbatim>\<open>onClose\<close> receives an event whose propagation
  is already stopped.
\<close>

theorem close_click_stops_propagation:
  assumes "c = HandleCloseClick oc \<or> c = OriginThenClose og oc"
  shows "propagationStopped (fst (run_click c e)) \<and>
         (\<exists>before after. snd (run_click c e) = before @ StoppedPropagation # after \<and>
            (\<forall>e1. CalledOnClose e1 \<notin> set before)) \<and>
         (\<forall>e1. CalledOnClose e1 \<in> set (snd (run_click c e)) \<longrightarrow> propagationStopped e1)"
proof -
  have stopped: "propagationStopped (fst (run_click c e))"
    using assms by (auto simp: originThenClose_def Let_def handleCloseClick_stopped)
  have order: "\<exists>before after. snd (run_click c e) = before @ StoppedPropagation # after \<and>
      (\<forall>e1. CalledOnClose e1 \<notin> set before)"
  proof -
    let ?called = "case og of None \<Rightarrow> [] | Some _ \<Rightarrow> [CalledOrigin e]"
    from assms consider "c = HandleCloseClick oc" | "c = OriginThenClose og oc" by blast
    then show ?thesis
    proof cases
      case 1
      then have "snd (run_click c e) = [] @ StoppedPropagation # tl (snd (handleCloseClick oc e))"
        by (simp add: handleCloseClick_trace)
      then show ?thesis by (metis empty_iff list.set(1))
    next
      case 2
      then have "snd (run_click c e) =
          ?called @ StoppedPropagation # tl (snd (handleCloseClick oc (invoke_opt og e)))"
        by (simp add: originThenClose_def Let_def handleCloseClick_trace)
      moreover have "\<forall>e1. CalledOnClose e1 \<notin> set ?called"
        by (simp split: option.splits)
      ultimately show ?thesis by blast
    qed
  qed
  have received: "\<forall>e1. CalledOnClose e1 \<in> set (snd (run_click c e)) \<longrightarrow> propagationStopped e1"
    using assms
    by (auto simp: originThenClose_def Let_def handleCloseClick_trace
        split: option.splits if_splits)
  from stopped order received show ?thesis by blast
qed

theorem close_click_stops_propagation_witness:
  "propagationStopped (fst (run_click (HandleCloseClick (Some [PreventDefault])) fresh_click)) \<and>
   propagationStopped (fst (run_click (OriginThenClose (Some []) None) fresh_click)) \<and>
   \<not> propagationStopped fresh_click"
proof -
  have a: "HandleCloseClick (Some [PreventDefault]) = HandleCloseClick (Some [PreventDefault]) \<or>
           HandleCloseClick (Some [PreventDefault]) = OriginThenClose None (Some [PreventDefault])"
    by simp
  have b: "OriginThenClose (Some []) None = HandleCloseClick None \<or>
           OriginThenClose (Some []) None = OriginThenClose (Some []) None"
    by simp
  from close_click_stops_propagation[OF a, of fresh_click]
    close_click_stops_propagation[OF b, of fresh_click]
  show ?thesis by (simp add: fresh_click_def)
qed

section \<open>Controlled visibility\<close>

lemma host_render_fields:
  "rendered (host_render p s) = Some p \<and> effect_deps (host_render p s) = Some (props_visible p) \<and>
   state_visible (host_render p s) =
     (if effect_deps s = Some (props_visible p) then state_visible s
      else case visible p of None \<Rightarrow> state_visible s | Some v \<Rightarrow> v)"
  by (simp add: host_render_def Let_def visible_effect_def split: option.splits)

lemma mirrors_host_render:
  assumes "mirrors_or_hidden s" and "visible p \<noteq> None"
  shows "mirrors_or_hidden (host_render p s)"
proof -
  from assms(2) obtain v where v: "visible p = Some v" by blast
  then have pv: "props_visible p = v" by (simp add: props_visible_def)
  show ?thesis
  proof (cases "effect_deps s = Some v")
    case True
    with assms(1) have "state_visible s = v \<or> state_visible s = Some False"
      by (auto simp: mirrors_or_hidden_def split: option.splits)
    with True v pv show ?thesis
      by (simp add: mirrors_or_hidden_def host_render_fields)
  next
    case False
    with v pv show ?thesis
      by (simp add: mirrors_or_hidden_def host_render_fields)
  qed
qed

lemma mirrors_close_click:
  assumes "mirrors_or_hidden s"
  shows "mirrors_or_hidden (close_click e s)"
proof (cases "rendered s")
  case None
  then show ?thesis using assms by (simp add: close_click_def)
next
  case (Some p)
  with assms show ?thesis
    by (auto simp: mirrors_or_hidden_def close_click_frame close_click_state)
qed

lemma mirrors_run: "list_all controlled evs \<Longrightarrow> mirrors_or_hidden (run evs)"
proof (induction evs rule: rev_induct)
  case Nil
  show ?case by (simp add: run_def mirrors_or_hidden_def initial_instance_def)
next
  case (snoc ev evs)
  then have ih: "mirrors_or_hidden (run evs)" and c: "controlled ev" by simp_all
  show ?case
  proof (cases ev)
    case (HostRender p)
    with c ih show ?thesis by (simp add: run_def mirrors_host_render)
  next
    case (CloseClick e)
    with ih show ?thesis by (simp add: run_def mirrors_close_click)
  qed
qed

lemma run_two: "run [a, b] = step (step initial_instance a) b"
  by (simp add: run_def)

lemma same_value_renders:
  "effect_deps s = Some v \<Longrightarrow> list_all (\<lambda>q. visible q = Some v) ps \<Longrightarrow>
   state_visible (foldl step s (map HostRender ps)) = state_visible s \<and>
   effect_deps (foldl step s (map HostRender ps)) = Some v"
proof (induction ps arbitrary: s)
  case Nil
  then show ?case by simp
next
  case (Cons q ps)
  then have q: "visible q = Some v" and rest: "list_all (\<lambda>q. visible q = Some v) ps"
    by simp_all
  from q have pv: "props_visible q = v" by (simp add: props_visible_def)
  have d: "effect_deps (host_render q s) = Some v"
    by (simp add: host_render_fields pv)
  have k: "state_visible (host_render q s) = state_visible s"
    using Cons.prems(1) by (simp add: host_render_fields pv)
  from Cons.IH[OF d rest] k show ?case by simp
qed

text \<open>
  Claim C1 as stated fails. The host mounts a closable tag with \<^verbatim>\<open>visible={true}\<close> and no
  \<^verbatim>\<open>onClose\<close>; a click on the close control then calls \<^verbatim>\<open>setVisible(false)\<close>, and the
  effect does not run again because \<^verbatim>\<open>props.visible\<close> has not changed, not even when the
  host renders the tag once more with \<^verbatim>\<open>visible={true}\<close>. The flag is false and the span
  carries the hidden class while the supplied value is true.
\<close>

theorem controlled_visibility_counterexample:
  "list_all controlled
     [HostRender (closable_props\<lparr>visible := Some (Some True)\<rparr>), CloseClick fresh_click,
      HostRender (closable_props\<lparr>visible := Some (Some True)\<rparr>)] \<and>
   closable (closable_props\<lparr>visible := Some (Some True)\<rparr>) = Some (ClosableBool True) \<and>
   props_visible (closable_props\<lparr>visible := Some (Some True)\<rparr>) = Some True \<and>
   state_visible
     (run [HostRender (closable_props\<lparr>visible := Some (Some True)\<rparr>), CloseClick fresh_click])
     = Some False \<and>
   state_visible
     (run [HostRender (closable_props\<lparr>visible := Some (Some True)\<rparr>), CloseClick fresh_click,
           HostRender (closable_props\<lparr>visible := Some (Some True)\<rparr>)])
     = Some False \<and>
   eclassName (tagNode example_collaborators example_context
     (closable_props\<lparr>visible := Some (Some True)\<rparr>)
     (state_visible
       (run [HostRender (closable_props\<lparr>visible := Some (Some True)\<rparr>), CloseClick fresh_click,
             HostRender (closable_props\<lparr>visible := Some (Some True)\<rparr>)])))
     = Some ''ant-tag ant-tag-hidden css-hash css-var''"
proof -
  let ?p = "closable_props\<lparr>visible := Some (Some True)\<rparr>"
  have c: "list_all controlled [HostRender ?p, CloseClick fresh_click, HostRender ?p]" by simp
  have cl: "closable ?p = Some (ClosableBool True)" by (simp add: closable_props_def)
  have v: "props_visible ?p = Some True" by (simp add: props_visible_def)
  have mounted: "rendered (host_render ?p initial_instance) = Some ?p"
    by (simp add: host_render_fields)
  have "\<not> defaultPrevented (invoke_opt (onClose ?p) (fresh_click\<lparr>propagationStopped := True\<rparr>))"
    by (simp add: closable_props_def example_props_def fresh_click_def invoke_opt_def)
  with mounted have clicked:
    "state_visible (close_click fresh_click (host_render ?p initial_instance)) = Some False"
    by (simp add: close_click_state)
  then have s2: "state_visible (run [HostRender ?p, CloseClick fresh_click]) = Some False"
    by (simp add: run_two)
  have "effect_deps (close_click fresh_click (host_render ?p initial_instance)) = Some (props_visible ?p)"
    by (simp add: close_click_frame host_render_fields)
  with clicked have s3:
    "state_visible (run [HostRender ?p, CloseClick fresh_click, HostRender ?p]) = Some False"
    by (simp add: run_def host_render_fields)
  have h: "eclassName (tagNode example_collaborators example_context ?p (Some False)) =
      Some ''ant-tag ant-tag-hidden css-hash css-var''"
    by (simp add: example_span_className closable_props_def example_props_def truthy_bool_def)
  from c cl v s2 s3 h show ?thesis by (simp only: s2 s3)
qed

text \<open>
  Claim C1, amended. With the \<^verbatim>\<open>visible\<close> prop present at every render, after any sequence
  of renders and close clicks the flag is the value supplied by the last render or false.
  A render whose supplied value is not the one the effect last ran for sets the flag to
  the supplied value; a render with the same supplied value leaves the flag as it is; a
  close click that is not prevented sets the flag to false whatever the supplied value is,
  and the flag then stays false through every further render with that same value. The
  hidden switch of the class object is on exactly when the flag is not true.
\<close>

theorem controlled_visibility_amended:
  "(list_all controlled evs \<longrightarrow> mirrors_or_hidden (run evs)) \<and>
   (visible p = Some v \<and> effect_deps s \<noteq> Some v \<longrightarrow> state_visible (host_render p s) = v) \<and>
   (visible p = Some v \<and> effect_deps s = Some v \<longrightarrow>
      state_visible (host_render p s) = state_visible s) \<and>
   (visible p = Some v \<longrightarrow> effect_deps (host_render p s) = Some v) \<and>
   (rendered s = Some p \<and>
      \<not> defaultPrevented (invoke_opt (onClose p) (e\<lparr>propagationStopped := True\<rparr>)) \<longrightarrow>
      state_visible (close_click e s) = Some False \<and>
      effect_deps (close_click e s) = effect_deps s) \<and>
   (effect_deps s = Some v \<and> list_all (\<lambda>q. visible q = Some v) ps \<longrightarrow>
      state_visible (foldl step s (map HostRender ps)) = state_visible s) \<and>
   ((prefixCls ctx p @ ''-hidden'' \<in> set (class_parts (CObj (switches ext ctx p vis)))) =
      (\<not> truthy_bool vis))"
proof -
  have changed: "visible p = Some v \<and> effect_deps s \<noteq> Some v \<longrightarrow>
      state_visible (host_render p s) = v"
    by (simp add: host_render_fields props_visible_def)
  have same: "visible p = Some v \<and> effect_deps s = Some v \<longrightarrow>
      state_visible (host_render p s) = state_visible s"
    by (simp add: host_render_fields props_visible_def)
  have deps: "visible p = Some v \<longrightarrow> effect_deps (host_render p s) = Some v"
    by (simp add: host_render_fields props_visible_def)
  have click: "rendered s = Some p \<and>
      \<not> defaultPrevented (invoke_opt (onClose p) (e\<lparr>propagationStopped := True\<rparr>)) \<longrightarrow>
      state_visible (close_click e s) = Some False \<and>
      effect_deps (close_click e s) = effect_deps s"
    by (simp add: close_click_state close_click_frame)
  have stays: "effect_deps s = Some v \<and> list_all (\<lambda>q. visible q = Some v) ps \<longrightarrow>
      state_visible (foldl step s (map HostRender ps)) = state_visible s"
    using same_value_renders[of s v ps] by blast
  have shown: "(prefixCls ctx p @ ''-hidden'' \<in> set (class_parts (CObj (switches ext ctx p vis)))) =
      (\<not> truthy_bool vis)"
    by (rule hidden_class_iff)
  from changed same deps click stays shown mirrors_run[of evs] show ?thesis by blast
qed

theorem controlled_visibility_amended_witness:
  "mirrors_or_hidden
     (run [HostRender (closable_props\<lparr>visible := Some (Some False)\<rparr>),
           HostRender (closable_props\<lparr>visible := Some (Some True)\<rparr>)]) \<and>
   state_visible (host_render (closable_props\<lparr>visible := Some (Some False)\<rparr>) initial_instance)
     = Some False \<and>
   state_visible (close_click fresh_click
      (host_render (closable_props\<lparr>visible := Some (Some True)\<rparr>) initial_instance)) = Some False \<and>
   state_visible (host_render (closable_props\<lparr>visible := Some (Some True)\<rparr>)
      (close_click fresh_click
        (host_render (closable_props\<lparr>visible := Some (Some True)\<rparr>) initial_instance)))
     = Some False \<and>
   state_visible (foldl step
      (close_click fresh_click
        (host_render (closable_props\<lparr>visible := Some (Some True)\<rparr>) initial_instance))
      (map HostRender [closable_props\<lparr>visible := Some (Some True)\<rparr>,
                       closable_props\<lparr>visible := Some (Some True)\<rparr>]))
     = Some False \<and>
   state_visible (host_render (closable_props\<lparr>visible := Some (Some False)\<rparr>)
      (host_render (closable_props\<lparr>visible := Some (Some True)\<rparr>) initial_instance))
     = Some False"
proof -
  let ?pf = "closable_props\<lparr>visible := Some (Some False)\<rparr>"
  let ?pt = "closable_props\<lparr>visible := Some (Some True)\<rparr>"
  let ?m = "host_render ?pt initial_instance"
  let ?c = "close_click fresh_click ?m"
  have c: "list_all controlled [HostRender ?pf, HostRender ?pt]" by simp
  have vf: "visible ?pf = Some (Some False)" and vt: "visible ?pt = Some (Some True)" by simp_all
  have d0: "effect_deps initial_instance \<noteq> Some (Some False)"
    by (simp add: initial_instance_def)
  have r: "rendered ?m = Some ?pt" by (simp add: host_render_fields)
  have np: "\<not> defaultPrevented (invoke_opt (onClose ?pt) (fresh_click\<lparr>propagationStopped := True\<rparr>))"
    by (simp add: closable_props_def example_props_def invoke_opt_def fresh_click_def)
  have l: "list_all (\<lambda>q. visible q = Some (Some True)) [?pt, ?pt]" by simp
  note t1 = controlled_visibility_amended[of "[HostRender ?pf, HostRender ?pt]" ?pf "Some False"
      initial_instance]
  note t2 = controlled_visibility_amended[of "[]" ?pt "Some True" ?m fresh_click]
  from t1 c vf d0
  have 1: "mirrors_or_hidden (run [HostRender ?pf, HostRender ?pt])"
    and 2: "state_visible (host_render ?pf initial_instance) = Some False"
    by blast+
  from t2 vt have dm: "effect_deps ?m = Some (Some True)"
    using controlled_visibility_amended[of "[]" ?pt "Some True" initial_instance] by blast
  from t2 r np have 3: "state_visible ?c = Some False" and dc: "effect_deps ?c = effect_deps ?m"
    by blast+
  from dc dm have dc': "effect_deps ?c = Some (Some True)" by simp
  from controlled_visibility_amended[of "[]" ?pt "Some True" ?c] vt dc' 3
  have 4: "state_visible (host_render ?pt ?c) = Some False" by metis
  from controlled_visibility_amended[of "[]" ?pt "Some True" ?c fresh_click "[?pt, ?pt]"] dc' l 3
  have 5: "state_visible (foldl step ?c (map HostRender [?pt, ?pt])) = Some False" by metis
  from controlled_visibility_amended[of "[]" ?pf "Some False" ?m] vf dm
  have 6: "state_visible (host_render ?pf ?m) = Some False" by auto
  from 1 2 3 4 5 6 show ?thesis by blast
qed

section \<open>Closing without a callback\<close>

text \<open>
  Claim C2 as stated fails. The tag has neither \<^verbatim>\<open>visible\<close> nor \<^verbatim>\<open>onClose\<close>, and a close icon
  with an \<^verbatim>\<open>onClick\<close> of its own that calls \<^verbatim>\<open>preventDefault\<close>. The wrapper of lines 121-124
  calls that handler first, \<^verbatim>\<open>handleCloseClick\<close> then finds \<^verbatim>\<open>e.defaultPrevented\<close> set and
  returns: the flag stays true and the span has no hidden class.
\<close>

theorem close_without_callback_counterexample:
  "visible vetoing_props = None \<and> onClose vetoing_props = None \<and>
   host_handler (eonClick (closeIcon vetoing_props)) = Some [PreventDefault] \<and>
   state_visible (host_render vetoing_props initial_instance) = Some True \<and>
   snd (run_click (OriginThenClose (Some [PreventDefault]) (onClose vetoing_props)) fresh_click) =
     [CalledOrigin fresh_click, StoppedPropagation] \<and>
   state_visible (icon_click (Some [PreventDefault]) fresh_click
     (host_render vetoing_props initial_instance)) = Some True \<and>
   eclassName (tagNode example_collaborators example_context vetoing_props
     (state_visible (icon_click (Some [PreventDefault]) fresh_click
        (host_render vetoing_props initial_instance)))) = Some ''ant-tag css-hash css-var''"
proof -
  have p: "visible vetoing_props = None \<and> onClose vetoing_props = None \<and>
      host_handler (eonClick (closeIcon vetoing_props)) = Some [PreventDefault]"
    by (simp add: vetoing_props_def closable_props_def example_props_def)
  have m: "state_visible (host_render vetoing_props initial_instance) = Some True"
    using p by (simp add: host_render_fields initial_instance_def)
  have t: "snd (run_click (OriginThenClose (Some [PreventDefault]) (onClose vetoing_props))
      fresh_click) = [CalledOrigin fresh_click, StoppedPropagation]"
    using p by (simp add: originThenClose_def Let_def handleCloseClick_trace invoke_opt_def
        invoke_def fresh_click_def)
  have s: "state_visible (icon_click (Some [PreventDefault]) fresh_click
      (host_render vetoing_props initial_instance)) = Some True"
    using t m by (simp add: icon_click_def host_render_fields)
  have c: "eclassName (tagNode example_collaborators example_context vetoing_props (Some True)) =
      Some ''ant-tag css-hash css-var''"
    by (simp add: example_span_className vetoing_props_def closable_props_def example_props_def
        truthy_bool_def)
  from p m t s c show ?thesis by (simp only: s)
qed

text \<open>
  Claim C2, amended. A tag rendered without the \<^verbatim>\<open>visible\<close> prop and without \<^verbatim>\<open>onClose\<close>: the
  local flag is true after mounting; a click on the close control whose event is not
  default-prevented when it reaches \<^verbatim>\<open>handleCloseClick\<close> (whether it comes straight from the
  control or through the wrapper, after the close icon's own handler) sets the flag to
  false; the flag stays false at the next render with these props; and the className of
  the span rendered with that flag has the hidden class.
\<close>

theorem unprevented_close_hides:
  assumes "visible p = None" and "onClose p = None" and "\<not> defaultPrevented e"
    and "rendered s = Some p"
  shows "state_visible (host_render p initial_instance) = Some True \<and>
         state_visible (close_click e s) = Some False \<and>
         state_visible (host_render p (close_click e s)) = Some False \<and>
         (\<forall>origin e0. invoke_opt origin e0 = e \<longrightarrow> icon_click origin e0 s = close_click e s) \<and>
         eclassName (tagNode ext ctx p (state_visible (close_click e s))) =
           Some (join_classes (tagClassList ext ctx p (state_visible (close_click e s)))) \<and>
         prefixCls ctx p @ ''-hidden'' \<in>
           set (tagClassList ext ctx p (state_visible (close_click e s))) \<and>
         (spaceless (prefixCls ctx p) \<longrightarrow>
            prefixCls ctx p @ ''-hidden'' \<in>
              set (class_tokens (the (eclassName
                (tagNode ext ctx p (state_visible (close_click e s)))))))"
proof -
  have mount: "state_visible (host_render p initial_instance) = Some True"
    using assms(1) by (simp add: host_render_def Let_def visible_effect_def initial_instance_def)
  have "\<not> defaultPrevented (invoke_opt (onClose p) (e\<lparr>propagationStopped := True\<rparr>))"
    using assms(2,3) by (simp add: invoke_opt_def)
  then have hidden: "state_visible (close_click e s) = Some False"
    using assms(4) by (simp add: close_click_state)
  have again: "state_visible (host_render p (close_click e s)) = Some False"
    using assms(1) hidden by (simp add: host_render_def Let_def visible_effect_def)
  have wrapper: "\<forall>origin e0. invoke_opt origin e0 = e \<longrightarrow> icon_click origin e0 s = close_click e s"
    by (simp add: icon_click_close_click)
  have "\<not> truthy_bool (Some False)" by (simp add: truthy_bool_def)
  from hidden_in_span[OF this, of ctx p ext] span_className[of ext ctx p "Some False"]
    mount hidden again wrapper
  show ?thesis by (simp only: hidden) blast
qed

theorem unprevented_close_hides_witness:
  "state_visible (close_click fresh_click (host_render closable_props initial_instance)) = Some False \<and>
   icon_click None fresh_click (host_render closable_props initial_instance) =
     close_click fresh_click (host_render closable_props initial_instance) \<and>
   ''ant-tag-hidden'' \<in> set (class_tokens (the (eclassName
      (tagNode example_collaborators example_context closable_props
         (state_visible (close_click fresh_click (host_render closable_props initial_instance)))))))"
proof -
  have a: "visible closable_props = None" by (simp add: closable_props_def example_props_def)
  have b: "onClose closable_props = None" by (simp add: closable_props_def example_props_def)
  have c: "\<not> defaultPrevented fresh_click" by (simp add: fresh_click_def)
  have d: "rendered (host_render closable_props initial_instance) = Some closable_props"
    by (simp add: host_render_def Let_def)
  have pre: "prefixCls example_context closable_props = ''ant-tag''"
    by (simp add: prefix_default closable_props_def example_props_def)
  have k: "''ant-tag'' @ ''-hidden'' = ''ant-tag-hidden''" by simp
  have sp: "spaceless ''ant-tag''" by (simp add: spaceless_def ascii_space_def)
  have o: "invoke_opt None fresh_click = fresh_click" by (simp add: invoke_opt_def)
  from unprevented_close_hides[OF a b c d, where ctx = example_context
      and ext = example_collaborators, unfolded pre k] sp o
  show ?thesis by blast
qed

section \<open>Colours\<close>

lemma tagStyle_background:
  "''backgroundColor'' \<notin> dom (spread (context_style ctx)) \<Longrightarrow>
   ''backgroundColor'' \<notin> dom (spread (style p)) \<Longrightarrow>
   tagStyle ext ctx p ''backgroundColor'' = Some (colorBackground ext p)"
  by (auto simp: tagStyle_def map_add_def split: option.splits)

text \<open>
  Claim C4. For a colour that \<^verbatim>\<open>isPresetColor\<close> or \<^verbatim>\<open>isPresetStatusColor\<close> accepts, the
  className of the rendered span has the class made of the prefix and the colour name,
  and the colour adds no has-color class; the entry that the colour contributes to the
  style of the span is \<^verbatim>\<open>undefined\<close>, so a background colour of the tag can only come from
  the context's tag style or the \<^verbatim>\<open>style\<close> prop. The two classifiers are parameters; they
  are taken not to accept the four fixed switch names of the class object, which are no
  colour names.
\<close>

theorem preset_color_class_no_background:
  assumes "isPresetColor ext (color p) \<or> isPresetStatusColor ext (color p)"
    and "\<forall>n\<in>set switch_names. \<not> isPresetColor ext (Some n) \<and> \<not> isPresetStatusColor ext (Some n)"
  shows "prefixCls ctx p @ ''-'' @ template (color p) \<in> set (tagClassList ext ctx p vis) \<and>
         eclassName (tagNode ext ctx p vis) = Some (join_classes (tagClassList ext ctx p vis)) \<and>
         (spaceless (prefixCls ctx p) \<and> spaceless (template (color p)) \<longrightarrow>
            prefixCls ctx p @ ''-'' @ template (color p) \<in>
              set (class_tokens (the (eclassName (tagNode ext ctx p vis))))) \<and>
         prefixCls ctx p @ ''-has-color'' \<notin> set (class_parts (CObj (switches ext ctx p vis))) \<and>
         colorBackground ext p = None \<and>
         tagStyle ext ctx p =
           [''backgroundColor'' \<mapsto> None] ++ spread (context_style ctx) ++ spread (style p) \<and>
         estyle (tagNode ext ctx p vis) =
           Some ([''backgroundColor'' \<mapsto> None] ++ spread (context_style ctx) ++ spread (style p)) \<and>
         (''backgroundColor'' \<notin> dom (spread (context_style ctx)) \<and>
          ''backgroundColor'' \<notin> dom (spread (style p)) \<longrightarrow>
          tagStyle ext ctx p ''backgroundColor'' = Some None)"
proof -
  have internal: "isInternalColor ext p"
    using assms(1) by (simp add: isInternalColor_def isPreset_def isStatus_def)
  have name: "template (color p) \<notin> set switch_names"
  proof (cases "color p")
    case None
    then show ?thesis by (simp add: template_def switch_names_def)
  next
    case (Some c)
    with assms show ?thesis by (auto simp: template_def)
  qed
  have cls: "prefixCls ctx p @ ''-'' @ template (color p) \<in> set (tagClassList ext ctx p vis)"
    using internal name by (intro switches_in_tagClassList preset_class)
  have span: "eclassName (tagNode ext ctx p vis) = Some (join_classes (tagClassList ext ctx p vis))"
    by (rule span_className)
  have tok: "spaceless (prefixCls ctx p) \<and> spaceless (template (color p)) \<longrightarrow>
      prefixCls ctx p @ ''-'' @ template (color p) \<in>
        set (class_tokens (the (eclassName (tagNode ext ctx p vis))))"
    using class_in_span[OF cls] by (simp add: spaceless_append spaceless_dash)
  have nohas: "prefixCls ctx p @ ''-has-color'' \<notin> set (class_parts (CObj (switches ext ctx p vis)))"
    using internal has_color_class_iff[of ctx p ext vis] by blast
  have bg: "colorBackground ext p = None"
    using internal by (simp add: colorBackground_def)
  have st: "tagStyle ext ctx p =
      [''backgroundColor'' \<mapsto> None] ++ spread (context_style ctx) ++ spread (style p)"
    by (simp add: tagStyle_def bg)
  have es: "estyle (tagNode ext ctx p vis) =
      Some ([''backgroundColor'' \<mapsto> None] ++ spread (context_style ctx) ++ spread (style p))"
    by (simp add: span_style st)
  have "''backgroundColor'' \<notin> dom (spread (context_style ctx)) \<and>
        ''backgroundColor'' \<notin> dom (spread (style p)) \<longrightarrow>
        tagStyle ext ctx p ''backgroundColor'' = Some None"
    using tagStyle_background[of ctx p ext] bg by simp
  with cls span tok nohas bg st es show ?thesis by blast
qed

theorem preset_color_class_no_background_witness:
  "''ant-tag-blue'' \<in> set (class_tokens (the (eclassName
       (tagNode example_collaborators example_context
          (example_props\<lparr>color := Some ''blue''\<rparr>) (Some True))))) \<and>
   estyle (tagNode example_collaborators example_context
       (example_props\<lparr>color := Some ''blue''\<rparr>) (Some True)) =
     Some ([''backgroundColor'' \<mapsto> None] ++ spread (context_style example_context)
             ++ spread (style (example_props\<lparr>color := Some ''blue''\<rparr>))) \<and>
   tagStyle example_collaborators example_context (example_props\<lparr>color := Some ''blue''\<rparr>)
       ''backgroundColor'' = Some None"
proof -
  let ?p = "example_props\<lparr>color := Some ''blue''\<rparr>"
  have a: "isPresetColor example_collaborators (color ?p) \<or>
           isPresetStatusColor example_collaborators (color ?p)"
    by (simp add: example_collaborators_def)
  have b: "\<forall>n\<in>set switch_names. \<not> isPresetColor example_collaborators (Some n) \<and>
           \<not> isPresetStatusColor example_collaborators (Some n)"
    by (simp add: switch_names_def example_collaborators_def)
  have c: "''backgroundColor'' \<notin> dom (spread (context_style example_context)) \<and>
           ''backgroundColor'' \<notin> dom (spread (style ?p))"
    by (simp add: spread_def context_style_def example_context_def example_props_def)
  have d: "prefixCls example_context ?p @ ''-'' @ template (color ?p) = ''ant-tag-blue''"
    by (simp add: prefix_default example_props_def template_def)
  have e: "spaceless (prefixCls example_context ?p) \<and> spaceless (template (color ?p))"
    by (simp add: prefix_default example_props_def template_def spaceless_def ascii_space_def)
  from preset_color_class_no_background[OF a b, where ctx = example_context
      and vis = "Some True", unfolded d] c e
  show ?thesis by blast
qed

text \<open>
  Claim C5 as stated fails. \<^verbatim>\<open><Tag color="#f50" style={{ backgroundColor: 'red' }} />\<close>:
  the \<^verbatim>\<open>style\<close> prop is spread after the entry of the colour, so the background colour of
  the rendered tag is \<^verbatim>\<open>red\<close>.
\<close>

theorem custom_color_background_counterexample:
  "truthy_str (Some ''#f50'') \<and>
   \<not> isPresetColor example_collaborators (Some ''#f50'') \<and>
   \<not> isPresetStatusColor example_collaborators (Some ''#f50'') \<and>
   tagStyle example_collaborators example_context
     (example_props\<lparr>color := Some ''#f50'',
                    style := Some [''backgroundColor'' \<mapsto> Some ''red'']\<rparr>)
     ''backgroundColor'' = Some (Some ''red'')"
  by (simp add: truthy_str_def example_collaborators_def tagStyle_def spread_def)

text \<open>
  Claim C5, amended. For a non-empty colour that neither classifier accepts, the colour is
  the \<^verbatim>\<open>backgroundColor\<close> entry that the context's tag style and the \<^verbatim>\<open>style\<close> prop are
  spread over, so it is the background colour of the rendered tag unless one of them has
  a \<^verbatim>\<open>backgroundColor\<close> key of its own; the class list has the has-color class; and the
  classes that the class object adds are among the four fixed switches, none of them a
  class for the colour. The style and the className are those of the rendered span.
\<close>

theorem custom_color_background:
  assumes "truthy_str (color p)"
    and "\<not> isPresetColor ext (color p)" and "\<not> isPresetStatusColor ext (color p)"
  shows "colorBackground ext p = color p \<and>
         tagStyle ext ctx p =
           [''backgroundColor'' \<mapsto> color p] ++ spread (context_style ctx) ++ spread (style p) \<and>
         (''backgroundColor'' \<notin> dom (spread (context_style ctx)) \<and>
          ''backgroundColor'' \<notin> dom (spread (style p)) \<longrightarrow>
          tagStyle ext ctx p ''backgroundColor'' = Some (color p)) \<and>
         prefixCls ctx p @ ''-has-color'' \<in> set (tagClassList ext ctx p vis) \<and>
         set (class_parts (CObj (switches ext ctx p vis)))
           \<subseteq> (\<lambda>n. prefixCls ctx p @ ''-'' @ n) ` set switch_names \<and>
         estyle (tagNode ext ctx p vis) =
           Some ([''backgroundColor'' \<mapsto> color p] ++ spread (context_style ctx) ++ spread (style p)) \<and>
         eclassName (tagNode ext ctx p vis) = Some (join_classes (tagClassList ext ctx p vis)) \<and>
         (spaceless (prefixCls ctx p) \<longrightarrow>
            prefixCls ctx p @ ''-has-color'' \<in>
              set (class_tokens (the (eclassName (tagNode ext ctx p vis)))))"
proof -
  have external: "\<not> isInternalColor ext p"
    using assms(2,3) by (simp add: isInternalColor_def isPreset_def isStatus_def)
  have bg: "colorBackground ext p = color p"
    using assms(1) external by (simp add: colorBackground_def)
  have st: "tagStyle ext ctx p =
      [''backgroundColor'' \<mapsto> color p] ++ spread (context_style ctx) ++ spread (style p)"
    by (simp add: tagStyle_def bg)
  have own: "''backgroundColor'' \<notin> dom (spread (context_style ctx)) \<and>
        ''backgroundColor'' \<notin> dom (spread (style p)) \<longrightarrow>
        tagStyle ext ctx p ''backgroundColor'' = Some (color p)"
    using tagStyle_background[of ctx p ext] bg by simp
  have "prefixCls ctx p @ ''-has-color'' \<in> set (class_parts (CObj (switches ext ctx p vis)))"
    using assms(1) external has_color_class_iff[of ctx p ext vis] by blast
  then have has: "prefixCls ctx p @ ''-has-color'' \<in> set (tagClassList ext ctx p vis)"
    by (rule switches_in_tagClassList)
  have only: "set (class_parts (CObj (switches ext ctx p vis)))
      \<subseteq> (\<lambda>n. prefixCls ctx p @ ''-'' @ n) ` set switch_names"
    using no_preset_class[OF external] by blast
  have es: "estyle (tagNode ext ctx p vis) =
      Some ([''backgroundColor'' \<mapsto> color p] ++ spread (context_style ctx) ++ spread (style p))"
    by (simp add: span_style st)
  have span: "eclassName (tagNode ext ctx p vis) = Some (join_classes (tagClassList ext ctx p vis))"
    by (rule span_className)
  have tok: "spaceless (prefixCls ctx p) \<longrightarrow>
      prefixCls ctx p @ ''-has-color'' \<in>
        set (class_tokens (the (eclassName (tagNode ext ctx p vis))))"
    using class_in_span[OF has] by (simp add: spaceless_append spaceless_suffixes)
  from bg st own has only es span tok show ?thesis by blast
qed

theorem custom_color_background_witness:
  "tagStyle example_collaborators example_context (example_props\<lparr>color := Some ''#f50''\<rparr>)
       ''backgroundColor'' = Some (Some ''#f50'') \<and>
   ''ant-tag-has-color'' \<in> set (tagClassList example_collaborators example_context
       (example_props\<lparr>color := Some ''#f50''\<rparr>) (Some True)) \<and>
   ''ant-tag-has-color'' \<in> set (class_tokens (the (eclassName
       (tagNode example_collaborators example_context
          (example_props\<lparr>color := Some ''#f50''\<rparr>) (Some True)))))"
proof -
  let ?p = "example_props\<lparr>color := Some ''#f50''\<rparr>"
  have a: "truthy_str (color ?p)" by (simp add: truthy_str_def)
  have b: "\<not> isPresetColor example_collaborators (color ?p)"
    by (simp add: example_collaborators_def)
  have c: "\<not> isPresetStatusColor example_collaborators (color ?p)"
    by (simp add: example_collaborators_def)
  have d: "''backgroundColor'' \<notin> dom (spread (context_style example_context)) \<and>
           ''backgroundColor'' \<notin> dom (spread (style ?p))"
    by (simp add: spread_def context_style_def example_context_def example_props_def)
  have e: "prefixCls example_context ?p @ ''-has-color'' = ''ant-tag-has-color''"
    by (simp add: prefix_default example_props_def)
  have f: "color ?p = Some ''#f50''" by simp
  have g: "spaceless (prefixCls example_context ?p)"
    by (simp add: prefix_default example_props_def spaceless_def ascii_space_def)
  from custom_color_background[OF a b c, where ctx = example_context and vis = "Some True",
      unfolded e] d f g
  show ?thesis by metis
qed

section \<open>The close control\<close>

text \<open>
  Claim C6. A tag with neither \<^verbatim>\<open>closable\<close> nor \<^verbatim>\<open>closeIcon\<close> renders no close control: the
  component calls \<^verbatim>\<open>useClosable\<close> with \<^verbatim>\<open>defaultClosable: false\<close>, and the slot of
  \<^verbatim>\<open>mergedCloseIcon\<close> among the children of the span holds \<^verbatim>\<open>null\<close>.
\<close>

theorem omitted_closable_no_close_control:
  assumes "closable p = None" and "closeIcon p = NUndefined"
  shows "mergedCloseIcon ext ctx p = NNull \<and>
         echildren (tagNode ext ctx p vis) =
           [kids p, NNull,
            if isPreset ext p then NElement ''PresetCmp'' None None None [] else NBool False,
            if isStatus ext p then NElement ''StatusCmp'' None None None [] else NBool False]"
proof -
  have "closable_setting (closable p) (closeIcon p) = None"
    using assms by simp
  then have "useClosable (closeIconOf ext) (closable p) (closeIcon p)
      (customCloseIconRender ext ctx p) False (pickClosable (tag ctx)) = (False, NNull)"
    by (simp add: useClosable_def)
  then have "mergedCloseIcon ext ctx p = NNull"
    by (simp add: mergedCloseIcon_def)
  then show ?thesis by (simp add: tagNode_def)
qed

theorem omitted_closable_no_close_control_witness:
  "mergedCloseIcon example_collaborators example_context example_props = NNull \<and>
   echildren (tagNode example_collaborators example_context example_props (Some True)) =
     [NString ''label'', NNull, NBool False, NBool False] \<and>
   mergedCloseIcon example_collaborators example_context closable_props \<noteq> NNull"
proof -
  have a: "closable example_props = None" by (simp add: example_props_def)
  have b: "closeIcon example_props = NUndefined" by (simp add: example_props_def)
  have k: "kids example_props = NString ''label''"
    by (simp add: kids_def iconNode_def example_props_def)
  have d: "\<not> isPreset example_collaborators example_props \<and>
           \<not> isStatus example_collaborators example_props"
    by (simp add: isPreset_def isStatus_def example_collaborators_def example_props_def)
  have e: "mergedCloseIcon example_collaborators example_context closable_props \<noteq> NNull"
    by (simp add: mergedCloseIcon_def useClosable_def closable_props_def example_props_def
        example_collaborators_def customCloseIconRender_def cloneOrReplace_def)
  from omitted_closable_no_close_control[OF a b, of example_collaborators example_context "Some True"]
    k d e
  show ?thesis by simp
qed

section \<open>Wave and content\<close>

text \<open>
  Claim C7. The node handed to \<^verbatim>\<open>wrapCSSVar\<close> is the tag node inside a \<^verbatim>\<open>Wave\<close> element
  exactly when \<^verbatim>\<open>onClick\<close> is a function or the child is an \<^verbatim>\<open>a\<close> element, and the tag node
  itself, a \<^verbatim>\<open>span\<close>, otherwise.
\<close>

theorem wave_wrapper_iff:
  "fst (InternalTag env ext ctx p vis) =
     fst (useStyle ext (prefixCls ctx p))
       (if onClick p \<noteq> None \<or> type_is (children p) ''a''
        then NElement ''Wave'' None None None [tagNode ext ctx p vis]
        else tagNode ext ctx p vis) \<and>
   etype (tagNode ext ctx p vis) = ''span''"
proof -
  have "isNeedWave p = (onClick p \<noteq> None \<or> type_is (children p) ''a'')"
    by (cases "children p") (simp_all add: isNeedWave_def)
  then show ?thesis
    by (simp add: InternalTag_def Let_def case_prod_beta tagNode_def)
qed

theorem wave_wrapper_iff_witness:
  "fst (InternalTag ''development'' example_collaborators example_context
         (example_props\<lparr>children := NElement ''a'' None None None [NString ''link'']\<rparr>) (Some True)) =
     NElement ''Wave'' None None None
       [tagNode example_collaborators example_context
          (example_props\<lparr>children := NElement ''a'' None None None [NString ''link'']\<rparr>) (Some True)] \<and>
   fst (InternalTag ''development'' example_collaborators example_context
         (example_props\<lparr>onClick := Some []\<rparr>) (Some True)) =
     NElement ''Wave'' None None None
       [tagNode example_collaborators example_context (example_props\<lparr>onClick := Some []\<rparr>) (Some True)] \<and>
   fst (InternalTag ''development'' example_collaborators example_context example_props (Some True)) =
     tagNode example_collaborators example_context example_props (Some True)"
proof -
  let ?link = "example_props\<lparr>children := NElement ''a'' None None None [NString ''link'']\<rparr>"
  let ?click = "example_props\<lparr>onClick := Some []\<rparr>"
  have w: "\<And>s. fst (useStyle example_collaborators s) = (\<lambda>n. n)"
    by (simp add: example_collaborators_def)
  from wave_wrapper_iff[of "''development''" example_collaborators example_context ?link "Some True"]
    wave_wrapper_iff[of "''development''" example_collaborators example_context ?click "Some True"]
    wave_wrapper_iff[of "''development''" example_collaborators example_context example_props "Some True"]
  show ?thesis by (simp add: w example_props_def)
qed

text \<open>
  Claim C9. With a (truthy) icon the content is a fragment of the icon followed by the
  children in a \<^verbatim>\<open>span\<close>, or by the children as they are when these are falsy; without
  one the content is the children themselves. The content is the first child of the tag.
\<close>

theorem icon_and_label_content:
  "(truthy (icon p) \<and> truthy (children p) \<longrightarrow>
      kids p = NFragment [icon p, NElement ''span'' None None None [children p]]) \<and>
   (truthy (icon p) \<and> \<not> truthy (children p) \<longrightarrow> kids p = NFragment [icon p, children p]) \<and>
   (\<not> truthy (icon p) \<longrightarrow> kids p = children p) \<and>
   hd (echildren (tagNode ext ctx p vis)) = kids p"
  by (simp add: kids_def iconNode_def tagNode_def)

theorem icon_and_label_content_witness:
  "kids (example_props\<lparr>icon := NElement ''Icon'' None None None []\<rparr>) =
     NFragment [NElement ''Icon'' None None None [],
                NElement ''span'' None None None [NString ''label'']] \<and>
   kids (example_props\<lparr>icon := NElement ''Icon'' None None None [], children := NUndefined\<rparr>) =
     NFragment [NElement ''Icon'' None None None [], NUndefined] \<and>
   kids example_props = NString ''label''"
proof -
  let ?i = "example_props\<lparr>icon := NElement ''Icon'' None None None []\<rparr>"
  let ?e = "example_props\<lparr>icon := NElement ''Icon'' None None None [], children := NUndefined\<rparr>"
  from icon_and_label_content[of ?i] icon_and_label_content[of ?e]
    icon_and_label_content[of example_props]
  show ?thesis by (simp add: example_props_def)
qed

end
